theory Spec2Isabelle
  imports Complex_Main "HOL-Library.Sublist"
begin

section \<open>Batch inference script \<^verbatim>\<open>mlflow/PySparkPredict.py\<close>\<close>

text \<open>
  The script sets three environment variables, parses three command-line options,
  creates a Spark session and calls \<^verbatim>\<open>process\<close>, which reads a parquet dataset,
  loads a model from the registry, applies it, keeps the columns \<^verbatim>\<open>driver_id\<close>
  and \<^verbatim>\<open>prediction\<close>, and writes the result as parquet.

  The script's own statements are embedded one by one. The library calls it makes
  (Spark, MLflow, argparse, \<^verbatim>\<open>os.environ\<close>) are not part of the script; each is
  modelled below by its documented behaviour on an explicit world: a store of
  datasets by path, a registry of models by URI, the environment, and the log of
  library calls made so far. A model is an opaque function from tables to tables
  that may fail.
\<close>

subsection \<open>Tables, errors, the world\<close>

record 'c table =
  schema :: "string list"
  rows :: "'c list list"

datatype error =
    PathNotFound string
  | ModelNotFound string
  | SchemaMismatch
  | ColumnNotFound string
  | AmbiguousColumn string
  | PathAlreadyExists string
  | UsageError

type_synonym 'c model = "'c table \<Rightarrow> error + 'c table"

datatype call =
    SetEnv string string
  | GetOrCreate string
  | ReadParquet string
  | LoadModel string
  | Transform
  | Select "string list"
  | WriteParquet string

record 'c world =
  fs :: "string \<rightharpoonup> 'c table"
  registry :: "string \<rightharpoonup> 'c model"
  env :: "string \<rightharpoonup> string"
  calls :: "call list"

record spark_session =
  app_name :: string

subsection \<open>The library calls\<close>

text \<open>\<^verbatim>\<open>os.environ[k] = v\<close>.\<close>

definition setenv :: "string \<Rightarrow> string \<Rightarrow> 'c world \<Rightarrow> 'c world" where
  "setenv k v w = w\<lparr>env := (env w)(k \<mapsto> v), calls := calls w @ [SetEnv k v]\<rparr>"

text \<open>\<^verbatim>\<open>spark.read.parquet(path)\<close>: raises when nothing is stored at the path.\<close>

definition read_parquet :: "string \<Rightarrow> 'c world \<Rightarrow> (error + 'c table) \<times> 'c world" where
  "read_parquet path w =
     (let w' = w\<lparr>calls := calls w @ [ReadParquet path]\<rparr>
      in case fs w path of
           None \<Rightarrow> (Inl (PathNotFound path), w')
         | Some t \<Rightarrow> (Inr t, w'))"

text \<open>\<^verbatim>\<open>mlflow.spark.load_model(model_uri)\<close>: raises when the URI does not resolve.\<close>

definition load_model :: "string \<Rightarrow> 'c world \<Rightarrow> (error + 'c model) \<times> 'c world" where
  "load_model uri w =
     (let w' = w\<lparr>calls := calls w @ [LoadModel uri]\<rparr>
      in case registry w uri of
           None \<Rightarrow> (Inl (ModelNotFound uri), w')
         | Some m \<Rightarrow> (Inr m, w'))"

text \<open>\<^verbatim>\<open>model.transform(df)\<close>: the model is applied; its failure is the call's failure.\<close>

definition transform :: "'c model \<Rightarrow> 'c table \<Rightarrow> 'c world \<Rightarrow> (error + 'c table) \<times> 'c world" where
  "transform m df w = (m df, w\<lparr>calls := calls w @ [Transform]\<rparr>)"

text \<open>
  \<^verbatim>\<open>df.select(name, ...)\<close>: every name must denote exactly one column of the
  table (names are compared as written); the result has the named columns, in the
  order asked for, and one row for each row of the table.
\<close>

definition column_index :: "string list \<Rightarrow> string \<Rightarrow> error + nat" where
  "column_index cols c =
     (case filter (\<lambda>i. cols ! i = c) [0..<length cols] of
        [] \<Rightarrow> Inl (ColumnNotFound c)
      | [i] \<Rightarrow> Inr i
      | _ \<Rightarrow> Inl (AmbiguousColumn c))"

fun column_indices :: "string list \<Rightarrow> string list \<Rightarrow> error + nat list" where
  "column_indices cols [] = Inr []"
| "column_indices cols (c # cs) =
     (case column_index cols c of
        Inl e \<Rightarrow> Inl e
      | Inr i \<Rightarrow> (case column_indices cols cs of
                   Inl e \<Rightarrow> Inl e
                 | Inr is \<Rightarrow> Inr (i # is)))"

definition project_row :: "nat list \<Rightarrow> 'c list \<Rightarrow> 'c list" where
  "project_row is row = map (\<lambda>i. row ! i) is"

definition select :: "string list \<Rightarrow> 'c table \<Rightarrow> 'c world \<Rightarrow> (error + 'c table) \<times> 'c world" where
  "select names df w =
     (let w' = w\<lparr>calls := calls w @ [Select names]\<rparr>
      in case column_indices (schema df) names of
           Inl e \<Rightarrow> (Inl e, w')
         | Inr is \<Rightarrow> (Inr \<lparr>schema = names, rows = map (project_row is) (rows df)\<rparr>, w'))"

text \<open>
  \<^verbatim>\<open>df.write.parquet(path)\<close> with no save mode given: the writer's default mode
  raises when something is already stored at the path, and stores the table otherwise.
\<close>

definition write_parquet :: "'c table \<Rightarrow> string \<Rightarrow> 'c world \<Rightarrow> (error + unit) \<times> 'c world" where
  "write_parquet df path w =
     (let w' = w\<lparr>calls := calls w @ [WriteParquet path]\<rparr>
      in case fs w path of
           Some _ \<Rightarrow> (Inl (PathAlreadyExists path), w')
         | None \<Rightarrow> (Inr (), w'\<lparr>fs := (fs w)(path \<mapsto> df)\<rparr>))"

text \<open>\<^verbatim>\<open>SparkSession.builder.appName(name).getOrCreate()\<close>.\<close>

definition get_or_create :: "string \<Rightarrow> 'c world \<Rightarrow> spark_session \<times> 'c world" where
  "get_or_create name w = (\<lparr>app_name = name\<rparr>, w\<lparr>calls := calls w @ [GetOrCreate name]\<rparr>)"

subsection \<open>The script\<close>

text \<open>
  \<^verbatim>\<open>process(spark, data_path, result, model_uri)\<close>, lines 13 to 32. An exception of
  a library call leaves \<^verbatim>\<open>process\<close> at once; the world is returned as it is then.
\<close>

definition process ::
  "spark_session \<Rightarrow> string \<Rightarrow> string \<Rightarrow> string \<Rightarrow> 'c world \<Rightarrow> (error + unit) \<times> 'c world" where
  "process spark data_path result model_uri w =
     (case read_parquet data_path w of
        (Inl e, w1) \<Rightarrow> (Inl e, w1)
      | (Inr data_df, w1) \<Rightarrow>
     (case load_model model_uri w1 of
        (Inl e, w2) \<Rightarrow> (Inl e, w2)
      | (Inr model, w2) \<Rightarrow>
     (case transform model data_df w2 of
        (Inl e, w3) \<Rightarrow> (Inl e, w3)
      | (Inr transformed, w3) \<Rightarrow>
     (case select [''driver_id'', ''prediction''] transformed w3 of
        (Inl e, w4) \<Rightarrow> (Inl e, w4)
      | (Inr predictions, w4) \<Rightarrow> write_parquet predictions result w4))))"

text \<open>\<^verbatim>\<open>_spark_session()\<close> and \<^verbatim>\<open>main(data_path, result_path, model_uri)\<close>.\<close>

definition spark_session :: "'c world \<Rightarrow> spark_session \<times> 'c world" where
  "spark_session w = get_or_create ''PySparkPredict'' w"

definition main :: "string \<Rightarrow> string \<Rightarrow> string \<Rightarrow> 'c world \<Rightarrow> (error + unit) \<times> 'c world" where
  "main data_path result_path model_uri w =
     (case spark_session w of (spark, w1) \<Rightarrow> process spark data_path result_path model_uri w1)"

subsection \<open>The command line\<close>

text \<open>
  Lines 49 to 53: an \<^verbatim>\<open>argparse\<close> parser with three string options, each with a
  default. The parser's own code is the library's; the model covers command lines made
  of \<^verbatim>\<open>--name value\<close> and \<^verbatim>\<open>--name=value\<close>, where the name may be shortened to
  a prefix that fits one option only, and a value given as a token of its own does not
  start with a dash. The model rejects every other command line with a usage error
  (the library exits there on most of them).
\<close>

record namespace =
  data_arg :: string
  result_arg :: string
  model_uri_arg :: string

datatype opt = OptData | OptResult | OptModelUri

definition option_strings :: "(string \<times> opt) list" where
  "option_strings = [(''--data'', OptData), (''--result'', OptResult), (''--model_uri'', OptModelUri)]"

definition defaults :: namespace where
  "defaults = \<lparr>data_arg = ''data.parquet'', result_arg = ''result'',
     model_uri_arg = ''s3://kc-mlflow/341/49349c2583f94de18093e90d3d6ea578/artifacts/e-sidorova''\<rparr>"

fun store :: "opt \<Rightarrow> string \<Rightarrow> namespace \<Rightarrow> namespace" where
  "store OptData v ns = ns\<lparr>data_arg := v\<rparr>"
| "store OptResult v ns = ns\<lparr>result_arg := v\<rparr>"
| "store OptModelUri v ns = ns\<lparr>model_uri_arg := v\<rparr>"

definition split_eq :: "string \<Rightarrow> string \<times> string option" where
  "split_eq tok =
     (if CHR ''='' \<in> set tok
      then (takeWhile (\<lambda>c. c \<noteq> CHR ''='') tok, Some (tl (dropWhile (\<lambda>c. c \<noteq> CHR ''='') tok)))
      else (tok, None))"

definition lookup_option :: "string \<Rightarrow> opt option" where
  "lookup_option s =
     (if prefix ''--'' s \<and> s \<noteq> ''--''
      then (case filter (\<lambda>(n, opt). prefix s n) option_strings of
              [(n, opt)] \<Rightarrow> Some opt
            | _ \<Rightarrow> None)
      else None)"

definition is_value :: "string \<Rightarrow> bool" where
  "is_value v = (case v of [] \<Rightarrow> True | c # _ \<Rightarrow> c \<noteq> CHR ''-'')"

fun parse_loop :: "namespace \<Rightarrow> string list \<Rightarrow> error + namespace" where
  "parse_loop ns [] = Inr ns"
| "parse_loop ns [tok] =
     (case split_eq tok of
        (s, Some v) \<Rightarrow> (case lookup_option s of
                         None \<Rightarrow> Inl UsageError
                       | Some opt \<Rightarrow> Inr (store opt v ns))
      | (s, None) \<Rightarrow> Inl UsageError)"
| "parse_loop ns (tok # v # rest) =
     (case split_eq tok of
        (s, Some x) \<Rightarrow> (case lookup_option s of
                         None \<Rightarrow> Inl UsageError
                       | Some opt \<Rightarrow> parse_loop (store opt x ns) (v # rest))
      | (s, None) \<Rightarrow> (case lookup_option s of
                       None \<Rightarrow> Inl UsageError
                     | Some opt \<Rightarrow> if is_value v then parse_loop (store opt v ns) rest
                                  else Inl UsageError))"

definition parse_args :: "string list \<Rightarrow> error + namespace" where
  "parse_args argv = parse_loop defaults argv"

text \<open>
  The module run as a script: lines 8 to 10, then lines 48 to 57. A usage error ends
  the run before \<^verbatim>\<open>main\<close> is called.
\<close>

definition startup :: "'c world \<Rightarrow> 'c world" where
  "startup w =
     setenv ''AWS_SECRET_ACCESS_KEY'' ''access-key''
       (setenv ''AWS_ACCESS_KEY_ID'' ''key-id''
          (setenv ''MLFLOW_S3_ENDPOINT_URL'' ''https://url.net'' w))"

definition program :: "string list \<Rightarrow> 'c world \<Rightarrow> (error + unit) \<times> 'c world" where
  "program argv w =
     (let w0 = startup w
      in case parse_args argv of
           Inl e \<Rightarrow> (Inl e, w0)
         | Inr args \<Rightarrow> main (data_arg args) (result_arg args) (model_uri_arg args) w0)"

subsection \<open>Notions the properties are stated with\<close>

text \<open>The order of the stages as the specification gives it: load, resolve, apply and
  project, write.\<close>

definition stage_sequence :: "string \<Rightarrow> string \<Rightarrow> string \<Rightarrow> call list" where
  "stage_sequence data_path result model_uri =
     [ReadParquet data_path, LoadModel model_uri, Transform,
      Select [''driver_id'', ''prediction''], WriteParquet result]"

text \<open>A model is a row-wise mapping when each row of its output is a function of the
  row of the input at the same place.\<close>

definition row_wise :: "'c model \<Rightarrow> bool" where
  "row_wise m = (\<forall>t t'. m t = Inr t' \<longrightarrow> (\<exists>f. rows t' = map f (rows t)))"

text \<open>The table \<^verbatim>\<open>process\<close> hands to the writer, when the stages before the writer
  succeed.\<close>

definition predictions_of :: "'c world \<Rightarrow> string \<Rightarrow> string \<Rightarrow> (error + 'c table)" where
  "predictions_of w data_path model_uri =
     (case fs w data_path of
        None \<Rightarrow> Inl (PathNotFound data_path)
      | Some t \<Rightarrow>
     (case registry w model_uri of
        None \<Rightarrow> Inl (ModelNotFound model_uri)
      | Some m \<Rightarrow>
     (case m t of
        Inl e \<Rightarrow> Inl e
      | Inr t' \<Rightarrow>
     (case column_indices (schema t') [''driver_id'', ''prediction''] of
        Inl e \<Rightarrow> Inl e
      | Inr is \<Rightarrow> Inr \<lparr>schema = [''driver_id'', ''prediction''],
                       rows = map (project_row is) (rows t')\<rparr>))))"

text \<open>The environment as the log of calls determines it, and the three variables of
  the artifact store.\<close>

definition apply_call :: "(string \<rightharpoonup> string) \<Rightarrow> call \<Rightarrow> (string \<rightharpoonup> string)" where
  "apply_call e c = (case c of SetEnv k v \<Rightarrow> e(k \<mapsto> v) | _ \<Rightarrow> e)"

definition env_after :: "(string \<rightharpoonup> string) \<Rightarrow> call list \<Rightarrow> (string \<rightharpoonup> string)" where
  "env_after e cs = foldl apply_call e cs"

definition is_setenv :: "call \<Rightarrow> bool" where
  "is_setenv c = (case c of SetEnv k v \<Rightarrow> True | _ \<Rightarrow> False)"

definition env_configured :: "(string \<rightharpoonup> string) \<Rightarrow> bool" where
  "env_configured e =
     (e ''MLFLOW_S3_ENDPOINT_URL'' = Some ''https://url.net'' \<and>
      e ''AWS_ACCESS_KEY_ID'' = Some ''key-id'' \<and>
      e ''AWS_SECRET_ACCESS_KEY'' = Some ''access-key'')"

definition startup_calls :: "call list" where
  "startup_calls =
     [SetEnv ''MLFLOW_S3_ENDPOINT_URL'' ''https://url.net'',
      SetEnv ''AWS_ACCESS_KEY_ID'' ''key-id'',
      SetEnv ''AWS_SECRET_ACCESS_KEY'' ''access-key'']"

text \<open>An option is given on a command line when one of its tokens selects it.\<close>

definition option_given :: "opt \<Rightarrow> string list \<Rightarrow> bool" where
  "option_given opt argv = list_ex (\<lambda>tok. lookup_option (fst (split_eq tok)) = Some opt) argv"

fun field :: "opt \<Rightarrow> namespace \<Rightarrow> string" where
  "field OptData ns = data_arg ns"
| "field OptResult ns = result_arg ns"
| "field OptModelUri ns = model_uri_arg ns"

text \<open>The specification's form of a registry URI, \<^verbatim>\<open>registry://experiment-id/run-id/artifacts/name\<close>,
  read as: a scheme, \<^verbatim>\<open>//\<close>, and a path that ends with a non-empty experiment id, a
  non-empty run id, \<^verbatim>\<open>artifacts\<close> and a non-empty name (the location of the store may
  come before them).\<close>

fun split_on :: "char \<Rightarrow> string \<Rightarrow> string list" where
  "split_on c [] = [[]]"
| "split_on c (x # xs) =
     (if x = c then [] # split_on c xs
      else (case split_on c xs of
              [] \<Rightarrow> [[x]]
            | s # ss \<Rightarrow> (x # s) # ss))"

definition registry_uri_form :: "string \<Rightarrow> bool" where
  "registry_uri_form uri =
     (case split_on CHR ''/'' uri of
        scheme # slash # segs \<Rightarrow>
          scheme \<noteq> [] \<and> last scheme = CHR '':'' \<and> slash = [] \<and>
          (case rev segs of
             name # artifacts # run_id # experiment_id # _ \<Rightarrow>
               name \<noteq> [] \<and> artifacts = ''artifacts'' \<and> run_id \<noteq> [] \<and> experiment_id \<noteq> []
           | _ \<Rightarrow> False)
      | _ \<Rightarrow> False)"

subsection \<open>The scenario of the specification\<close>

text \<open>Two rows, a model that predicts \<^verbatim>\<open>f1 > 0.5\<close> and adds the column
  \<^verbatim>\<open>prediction\<close>.\<close>

definition demo_data :: "real table" where
  "demo_data = \<lparr>schema = [''driver_id'', ''f1''], rows = [[1, 0.2], [2, 0.9]]\<rparr>"

definition threshold_model :: "real model" where
  "threshold_model df =
     (case column_index (schema df) ''f1'' of
        Inl e \<Rightarrow> Inl SchemaMismatch
      | Inr i \<Rightarrow> Inr \<lparr>schema = schema df @ [''prediction''],
                      rows = map (\<lambda>r. r @ [if r ! i > 0.5 then 1 else 0]) (rows df)\<rparr>)"

definition demo_world :: "real world" where
  "demo_world = \<lparr>fs = [''data.parquet'' \<mapsto> demo_data],
     registry = [model_uri_arg defaults \<mapsto> threshold_model],
     env = Map.empty, calls = []\<rparr>"

definition demo_spark :: spark_session where
  "demo_spark = \<lparr>app_name = ''PySparkPredict''\<rparr>"

definition demo_predictions :: "real table" where
  "demo_predictions = \<lparr>schema = [''driver_id'', ''prediction''], rows = [[1, 0], [2, 1]]\<rparr>"

definition demo_world_after :: "real world" where
  "demo_world_after = demo_world\<lparr>fs := (fs demo_world)(''result'' \<mapsto> demo_predictions),
     calls := stage_sequence ''data.parquet'' ''result'' (model_uri_arg defaults)\<rparr>"

definition empty_world :: "real world" where
  "empty_world = demo_world\<lparr>fs := [''data.parquet'' \<mapsto> demo_data\<lparr>rows := []\<rparr>]\<rparr>"

definition other_world :: "real world" where
  "other_world = demo_world\<lparr>fs := (fs demo_world)(''elsewhere'' \<mapsto> demo_predictions),
     env := [''HOME'' \<mapsto> ''/root''], calls := [GetOrCreate ''other'']\<rparr>"

subsection \<open>What a run of \<^verbatim>\<open>process\<close> does, case by case\<close>

lemmas stage_defs = read_parquet_def load_model_def transform_def select_def write_parquet_def

lemma process_eq:
  "process spark d r u w =
     (case fs w d of
        None \<Rightarrow> (Inl (PathNotFound d), w\<lparr>calls := calls w @ [ReadParquet d]\<rparr>)
      | Some t \<Rightarrow>
     (case registry w u of
        None \<Rightarrow> (Inl (ModelNotFound u), w\<lparr>calls := calls w @ [ReadParquet d, LoadModel u]\<rparr>)
      | Some m \<Rightarrow>
     (case m t of
        Inl e \<Rightarrow> (Inl e, w\<lparr>calls := calls w @ [ReadParquet d, LoadModel u, Transform]\<rparr>)
      | Inr t' \<Rightarrow>
     (case column_indices (schema t') [''driver_id'', ''prediction''] of
        Inl e \<Rightarrow> (Inl e, w\<lparr>calls := calls w @ [ReadParquet d, LoadModel u, Transform,
                                                Select [''driver_id'', ''prediction'']]\<rparr>)
      | Inr is \<Rightarrow>
     (case fs w r of
        Some old \<Rightarrow> (Inl (PathAlreadyExists r), w\<lparr>calls := calls w @ stage_sequence d r u\<rparr>)
      | None \<Rightarrow> (Inr (), w\<lparr>calls := calls w @ stage_sequence d r u,
                   fs := (fs w)(r \<mapsto> \<lparr>schema = [''driver_id'', ''prediction''],
                                        rows = map (project_row is) (rows t')\<rparr>)\<rparr>))))))"
  by (simp add: process_def stage_defs Let_def stage_sequence_def
        split: option.splits sum.splits)

lemma demo_run:
  "process demo_spark ''data.parquet'' ''result'' (model_uri_arg defaults) demo_world
     = (Inr (), demo_world_after)"
  by (simp add: process_eq demo_world_def demo_world_after_def demo_predictions_def
        demo_data_def threshold_model_def column_index_def project_row_def defaults_def)

text \<open>
  C1: whenever \<^verbatim>\<open>process\<close> succeeds, the table it has written at the result path
  has exactly two columns: the identifier column, which the script names
  \<^verbatim>\<open>driver_id\<close>, and \<^verbatim>\<open>prediction\<close>, whatever the columns of the input dataset are.
\<close>

theorem process_output_two_columns:
  assumes "process spark data_path result model_uri w = (Inr (), w')"
  shows "\<exists>p. fs w' result = Some p \<and> schema p = [''driver_id'', ''prediction'']
           \<and> length (schema p) = 2"
  using assms
  by (auto simp: process_eq simp del: column_indices.simps split: option.splits sum.splits)


theorem process_output_two_columns_witness:
  "process demo_spark ''data.parquet'' ''result'' (model_uri_arg defaults) demo_world
     = (Inr (), demo_world_after)
   \<and> (\<exists>p. fs demo_world_after ''result'' = Some p
          \<and> schema p = [''driver_id'', ''prediction''] \<and> length (schema p) = 2)"
  using process_output_two_columns [OF demo_run] demo_run by simp

lemma row_wise_threshold_model: "row_wise threshold_model"
  unfolding row_wise_def
proof (intro allI impI)
  fix t t' :: "real table"
  assume run: "threshold_model t = Inr t'"
  then obtain i where "column_index (schema t) ''f1'' = Inr i"
    by (auto simp: threshold_model_def split: sum.splits)
  with run have "rows t' = map (\<lambda>r. r @ [if r ! i > 0.5 then 1 else 0]) (rows t)"
    by (auto simp: threshold_model_def)
  then show "\<exists>f. rows t' = map f (rows t)" by blast
qed

lemma demo_world_facts:
  "fs demo_world ''data.parquet'' = Some demo_data"
  "registry demo_world (model_uri_arg defaults) = Some threshold_model"
  "fs demo_world ''result'' = None"
  by (simp_all add: demo_world_def)

text \<open>
  C2: for a dataset of N rows at the data path and a model that is a row-wise mapping,
  \<^verbatim>\<open>process\<close> succeeds exactly when the model accepts the dataset, its output has
  the columns \<^verbatim>\<open>driver_id\<close> and \<^verbatim>\<open>prediction\<close> and the result path is free; and
  every run that succeeds has written a table of exactly N rows at the result path.
\<close>

theorem process_row_count:
  assumes "fs w data_path = Some t"
    and "registry w model_uri = Some m"
    and "row_wise m"
  shows "(fst (process spark data_path result model_uri w) = Inr ())
           = (\<exists>t' is. m t = Inr t'
                \<and> column_indices (schema t') [''driver_id'', ''prediction''] = Inr is
                \<and> fs w result = None)
         \<and> (fst (process spark data_path result model_uri w) = Inr () \<longrightarrow>
              (\<exists>p. fs (snd (process spark data_path result model_uri w)) result = Some p
                 \<and> length (rows p) = length (rows t)))"
proof (intro conjI impI)
  from assms(1,2)
  show "(fst (process spark data_path result model_uri w) = Inr ())
           = (\<exists>t' is. m t = Inr t'
                \<and> column_indices (schema t') [''driver_id'', ''prediction''] = Inr is
                \<and> fs w result = None)"
    by (auto simp: process_eq simp del: column_indices.simps split: option.splits sum.splits)
next
  assume "fst (process spark data_path result model_uri w) = Inr ()"
  with assms(1,2) obtain t' "is" where mt: "m t = Inr t'"
    and cols: "column_indices (schema t') [''driver_id'', ''prediction''] = Inr is"
    and free: "fs w result = None"
    by (auto simp: process_eq simp del: column_indices.simps split: option.splits sum.splits)
  with assms(1,2) have stored: "fs (snd (process spark data_path result model_uri w)) result
        = Some \<lparr>schema = [''driver_id'', ''prediction''],
                rows = map (project_row is) (rows t')\<rparr>"
    by (simp add: process_eq del: column_indices.simps)
  from assms(3) mt obtain f where "rows t' = map f (rows t)"
    unfolding row_wise_def by blast
  then have "length (rows t') = length (rows t)" by simp
  with stored
  show "\<exists>p. fs (snd (process spark data_path result model_uri w)) result = Some p
          \<and> length (rows p) = length (rows t)"
    by simp
qed

lemma demo_model_facts:
  "threshold_model demo_data
     = Inr \<lparr>schema = [''driver_id'', ''f1'', ''prediction''], rows = [[1, 0.2, 0], [2, 0.9, 1]]\<rparr>"
  by (simp add: threshold_model_def demo_data_def column_index_def)

theorem process_row_count_witness:
  "fs demo_world ''data.parquet'' = Some demo_data
   \<and> registry demo_world (model_uri_arg defaults) = Some threshold_model
   \<and> row_wise threshold_model
   \<and> rows demo_data = [[1, 0.2], [2, 0.9]]
   \<and> fst (process demo_spark ''data.parquet'' ''result'' (model_uri_arg defaults) demo_world)
       = Inr ()
   \<and> (\<exists>p. fs (snd (process demo_spark ''data.parquet'' ''result'' (model_uri_arg defaults)
                     demo_world)) ''result'' = Some p
          \<and> length (rows p) = length (rows demo_data))"
proof -
  note run = process_row_count [OF demo_world_facts(1,2) row_wise_threshold_model,
      of demo_spark "''result''"]
  have ok: "fst (process demo_spark ''data.parquet'' ''result'' (model_uri_arg defaults)
      demo_world) = Inr ()"
    using run demo_model_facts demo_world_facts(3) by (simp add: column_index_def)
  with run demo_world_facts row_wise_threshold_model show ?thesis
    by (simp add: demo_data_def)
qed

text \<open>
  C3: when a dataset is already stored at the result path, \<^verbatim>\<open>process\<close> fails and
  the store of datasets is left as it was; when the stages before the writer succeed,
  the failure is the writer's, after all five calls. In particular a second run with the
  arguments of a successful first run fails at the write step.
\<close>

theorem process_existing_output:
  "(fs w result = Some old \<longrightarrow>
      (\<exists>e. fst (process spark data_path result model_uri w) = Inl e)
      \<and> fs (snd (process spark data_path result model_uri w)) = fs w
      \<and> (\<forall>p. predictions_of w data_path model_uri = Inr p \<longrightarrow>
            process spark data_path result model_uri w
              = (Inl (PathAlreadyExists result),
                 w\<lparr>calls := calls w @ stage_sequence data_path result model_uri\<rparr>)))
   \<and> (process spark data_path result model_uri w0 = (Inr (), w1) \<longrightarrow>
        process spark data_path result model_uri w1
          = (Inl (PathAlreadyExists result),
             w1\<lparr>calls := calls w1 @ stage_sequence data_path result model_uri\<rparr>))"
proof (intro conjI impI allI)
  assume "fs w result = Some old"
  then show "\<exists>e. fst (process spark data_path result model_uri w) = Inl e"
    by (simp add: process_eq split: option.splits sum.splits)
next
  assume "fs w result = Some old"
  then show "fs (snd (process spark data_path result model_uri w)) = fs w"
    by (simp add: process_eq split: option.splits sum.splits)
next
  fix p
  assume "fs w result = Some old" and "predictions_of w data_path model_uri = Inr p"
  then show "process spark data_path result model_uri w
      = (Inl (PathAlreadyExists result),
         w\<lparr>calls := calls w @ stage_sequence data_path result model_uri\<rparr>)"
    by (auto simp: process_eq predictions_of_def simp del: column_indices.simps
        split: option.splits sum.splits)
next
  assume first: "process spark data_path result model_uri w0 = (Inr (), w1)"
  then obtain t m t' "is" where t: "fs w0 data_path = Some t"
    and m: "registry w0 model_uri = Some m" and t': "m t = Inr t'"
    and cols: "column_indices (schema t') [''driver_id'', ''prediction''] = Inr is"
    and free: "fs w0 result = None"
    and w1: "w1 = w0\<lparr>calls := calls w0 @ stage_sequence data_path result model_uri,
                   fs := (fs w0)(result \<mapsto> \<lparr>schema = [''driver_id'', ''prediction''],
                                        rows = map (project_row is) (rows t')\<rparr>)\<rparr>"
    by (auto simp: process_eq simp del: column_indices.simps split: option.splits sum.splits)
  from t free have "data_path \<noteq> result" by auto
  with t m t' cols w1 show "process spark data_path result model_uri w1
      = (Inl (PathAlreadyExists result),
         w1\<lparr>calls := calls w1 @ stage_sequence data_path result model_uri\<rparr>)"
    by (simp add: process_eq del: column_indices.simps)
qed

lemma demo_after_facts:
  "fs demo_world_after ''result'' = Some demo_predictions"
  "predictions_of demo_world_after ''data.parquet'' (model_uri_arg defaults) = Inr demo_predictions"
  by (simp_all add: demo_world_after_def demo_world_def predictions_of_def demo_predictions_def
      demo_data_def threshold_model_def column_index_def project_row_def defaults_def)

theorem process_existing_output_witness:
  "fs demo_world_after ''result'' = Some demo_predictions
   \<and> predictions_of demo_world_after ''data.parquet'' (model_uri_arg defaults) = Inr demo_predictions
   \<and> process demo_spark ''data.parquet'' ''result'' (model_uri_arg defaults) demo_world
       = (Inr (), demo_world_after)
   \<and> process demo_spark ''data.parquet'' ''result'' (model_uri_arg defaults) demo_world_after
       = (Inl (PathAlreadyExists ''result''),
          demo_world_after\<lparr>calls := calls demo_world_after
             @ stage_sequence ''data.parquet'' ''result'' (model_uri_arg defaults)\<rparr>)
   \<and> fs (snd (process demo_spark ''data.parquet'' ''result'' (model_uri_arg defaults)
         demo_world_after)) = fs demo_world_after"
  using process_existing_output [where w = demo_world_after and result = "''result''"
      and old = demo_predictions and spark = demo_spark and data_path = "''data.parquet''"
      and model_uri = "model_uri_arg defaults" and ?w0.0 = demo_world and ?w1.0 = demo_world_after]
    demo_after_facts demo_run
  by simp

text \<open>
  C4: when the model URI does not resolve, \<^verbatim>\<open>process\<close> fails at the read or at the
  load of the model, the writer is never called, and the store of datasets and the
  registry are left as they were.
\<close>

theorem process_unresolved_model:
  assumes "registry w model_uri = None"
  shows "process spark data_path result model_uri w =
           (case fs w data_path of
              None \<Rightarrow> (Inl (PathNotFound data_path),
                        w\<lparr>calls := calls w @ [ReadParquet data_path]\<rparr>)
            | Some t \<Rightarrow> (Inl (ModelNotFound model_uri),
                         w\<lparr>calls := calls w @ [ReadParquet data_path, LoadModel model_uri]\<rparr>))
         \<and> fs (snd (process spark data_path result model_uri w)) = fs w
         \<and> registry (snd (process spark data_path result model_uri w)) = registry w
         \<and> WriteParquet result \<notin> set (drop (length (calls w))
               (calls (snd (process spark data_path result model_uri w))))"
  using assms by (simp add: process_eq split: option.splits)

theorem process_unresolved_model_witness:
  "registry demo_world ''s3://kc-mlflow/0/none/artifacts/missing'' = None
   \<and> process demo_spark ''data.parquet'' ''result'' ''s3://kc-mlflow/0/none/artifacts/missing''
        demo_world
       = (Inl (ModelNotFound ''s3://kc-mlflow/0/none/artifacts/missing''),
          demo_world\<lparr>calls := [ReadParquet ''data.parquet'',
             LoadModel ''s3://kc-mlflow/0/none/artifacts/missing'']\<rparr>)
   \<and> fs (snd (process demo_spark ''data.parquet'' ''result''
         ''s3://kc-mlflow/0/none/artifacts/missing'' demo_world)) ''result'' = None"
proof -
  have unresolved: "registry demo_world ''s3://kc-mlflow/0/none/artifacts/missing'' = None"
    by (simp add: demo_world_def defaults_def)
  show ?thesis
    using process_unresolved_model [OF unresolved, of demo_spark "''data.parquet''" "''result''"]
      unresolved demo_world_facts
    by (simp add: demo_world_def)
qed

text \<open>
  C5: every run of \<^verbatim>\<open>process\<close> goes through read, load, transform, select, write
  in this one order, each stage at most once and each on the result of the stage before
  it, and stops at the first stage that fails: the read takes the dataset at the data
  path, the load the model at the URI, the model is applied to that dataset, the two
  columns are taken from the model's output, and that table is what the writer stores.
  The calls made are an initial segment of the fixed sequence, and all of it on success.
\<close>

theorem process_sequential:
  "prefix (calls w @ [ReadParquet data_path]) (calls (snd (process spark data_path result model_uri w)))
   \<and> prefix (calls (snd (process spark data_path result model_uri w)))
        (calls w @ stage_sequence data_path result model_uri)
   \<and> (fst (process spark data_path result model_uri w) = Inr () \<longrightarrow>
        calls (snd (process spark data_path result model_uri w))
          = calls w @ stage_sequence data_path result model_uri)
   \<and> process spark data_path result model_uri w =
       (case fs w data_path of
          None \<Rightarrow> (Inl (PathNotFound data_path),
                    w\<lparr>calls := calls w @ take 1 (stage_sequence data_path result model_uri)\<rparr>)
        | Some t \<Rightarrow>
       (case registry w model_uri of
          None \<Rightarrow> (Inl (ModelNotFound model_uri),
                    w\<lparr>calls := calls w @ take 2 (stage_sequence data_path result model_uri)\<rparr>)
        | Some m \<Rightarrow>
       (case m t of
          Inl e \<Rightarrow> (Inl e,
                     w\<lparr>calls := calls w @ take 3 (stage_sequence data_path result model_uri)\<rparr>)
        | Inr t' \<Rightarrow>
       (case column_indices (schema t') [''driver_id'', ''prediction''] of
          Inl e \<Rightarrow> (Inl e,
                     w\<lparr>calls := calls w @ take 4 (stage_sequence data_path result model_uri)\<rparr>)
        | Inr is \<Rightarrow>
       (case fs w result of
          Some old \<Rightarrow> (Inl (PathAlreadyExists result),
                        w\<lparr>calls := calls w @ stage_sequence data_path result model_uri\<rparr>)
        | None \<Rightarrow> (Inr (),
                    w\<lparr>calls := calls w @ stage_sequence data_path result model_uri,
                      fs := (fs w)(result \<mapsto>
                        \<lparr>schema = [''driver_id'', ''prediction''],
                         rows = map (project_row is) (rows t')\<rparr>)\<rparr>))))))"
proof (intro conjI)
  show "prefix (calls w @ [ReadParquet data_path])
      (calls (snd (process spark data_path result model_uri w)))"
    by (simp add: process_eq stage_sequence_def split: option.splits sum.splits)
next
  show "prefix (calls (snd (process spark data_path result model_uri w)))
      (calls w @ stage_sequence data_path result model_uri)"
    by (simp add: process_eq stage_sequence_def split: option.splits sum.splits)
next
  show "fst (process spark data_path result model_uri w) = Inr () \<longrightarrow>
      calls (snd (process spark data_path result model_uri w))
        = calls w @ stage_sequence data_path result model_uri"
    by (simp add: process_eq stage_sequence_def split: option.splits sum.splits)
next
  have segs: "take 1 (stage_sequence data_path result model_uri) = [ReadParquet data_path]"
    "take 2 (stage_sequence data_path result model_uri)
       = [ReadParquet data_path, LoadModel model_uri]"
    "take 3 (stage_sequence data_path result model_uri)
       = [ReadParquet data_path, LoadModel model_uri, Transform]"
    "take 4 (stage_sequence data_path result model_uri)
       = [ReadParquet data_path, LoadModel model_uri, Transform,
          Select [''driver_id'', ''prediction'']]"
    by (simp_all add: stage_sequence_def)
  show "process spark data_path result model_uri w =
       (case fs w data_path of
          None \<Rightarrow> (Inl (PathNotFound data_path),
                    w\<lparr>calls := calls w @ take 1 (stage_sequence data_path result model_uri)\<rparr>)
        | Some t \<Rightarrow>
       (case registry w model_uri of
          None \<Rightarrow> (Inl (ModelNotFound model_uri),
                    w\<lparr>calls := calls w @ take 2 (stage_sequence data_path result model_uri)\<rparr>)
        | Some m \<Rightarrow>
       (case m t of
          Inl e \<Rightarrow> (Inl e,
                     w\<lparr>calls := calls w @ take 3 (stage_sequence data_path result model_uri)\<rparr>)
        | Inr t' \<Rightarrow>
       (case column_indices (schema t') [''driver_id'', ''prediction''] of
          Inl e \<Rightarrow> (Inl e,
                     w\<lparr>calls := calls w @ take 4 (stage_sequence data_path result model_uri)\<rparr>)
        | Inr is \<Rightarrow>
       (case fs w result of
          Some old \<Rightarrow> (Inl (PathAlreadyExists result),
                        w\<lparr>calls := calls w @ stage_sequence data_path result model_uri\<rparr>)
        | None \<Rightarrow> (Inr (),
                    w\<lparr>calls := calls w @ stage_sequence data_path result model_uri,
                      fs := (fs w)(result \<mapsto>
                        \<lparr>schema = [''driver_id'', ''prediction''],
                         rows = map (project_row is) (rows t')\<rparr>)\<rparr>))))))"
    unfolding segs by (rule process_eq)
qed

theorem process_sequential_witness:
  "process demo_spark ''data.parquet'' ''result'' (model_uri_arg defaults) demo_world
     = (Inr (), demo_world\<lparr>
          calls := [ReadParquet ''data.parquet'', LoadModel (model_uri_arg defaults), Transform,
                    Select [''driver_id'', ''prediction''], WriteParquet ''result''],
          fs := (fs demo_world)(''result'' \<mapsto>
                  \<lparr>schema = [''driver_id'', ''prediction''], rows = [[1, 0], [2, 1]]\<rparr>)\<rparr>)
   \<and> process demo_spark ''absent.parquet'' ''result'' (model_uri_arg defaults) demo_world
     = (Inl (PathNotFound ''absent.parquet''),
        demo_world\<lparr>calls := [ReadParquet ''absent.parquet'']\<rparr>)
   \<and> process demo_spark ''data.parquet'' ''result'' ''s3://kc-mlflow/0/none/artifacts/missing''
        demo_world
     = (Inl (ModelNotFound ''s3://kc-mlflow/0/none/artifacts/missing''),
        demo_world\<lparr>calls := [ReadParquet ''data.parquet'',
           LoadModel ''s3://kc-mlflow/0/none/artifacts/missing'']\<rparr>)"
  using process_sequential [of demo_world "''data.parquet''" demo_spark "''result''"
      "model_uri_arg defaults"]
    process_sequential [of demo_world "''absent.parquet''" demo_spark "''result''"
      "model_uri_arg defaults"]
    process_sequential [of demo_world "''data.parquet''" demo_spark "''result''"
      "''s3://kc-mlflow/0/none/artifacts/missing''"]
  by (simp add: demo_world_def demo_data_def threshold_model_def column_index_def
      project_row_def defaults_def stage_sequence_def)

text \<open>
  C7: a successful run of \<^verbatim>\<open>process\<close> changes the store of datasets at the result
  path only, where nothing was stored before; the input dataset, the registry and the
  environment are unchanged.
\<close>

theorem process_frame:
  assumes "process spark data_path result model_uri w = (Inr (), w')"
  shows "fs w result = None
         \<and> (\<exists>p. fs w' = (fs w)(result \<mapsto> p))
         \<and> fs w' data_path = fs w data_path
         \<and> registry w' = registry w
         \<and> env w' = env w"
proof -
  from assms obtain t p where "fs w data_path = Some t" and "fs w result = None"
    and "w' = w\<lparr>calls := calls w @ stage_sequence data_path result model_uri,
               fs := (fs w)(result \<mapsto> p)\<rparr>"
    by (auto simp: process_eq simp del: column_indices.simps split: option.splits sum.splits)
  moreover from this have "data_path \<noteq> result" by auto
  ultimately show ?thesis by auto
qed

theorem process_frame_witness:
  "process demo_spark ''data.parquet'' ''result'' (model_uri_arg defaults) demo_world
     = (Inr (), demo_world_after)
   \<and> fs demo_world ''result'' = None
   \<and> fs demo_world_after = (fs demo_world)(''result'' \<mapsto> demo_predictions)
   \<and> fs demo_world_after ''data.parquet'' = Some demo_data
   \<and> registry demo_world_after = registry demo_world
   \<and> env demo_world_after = env demo_world"
  using process_frame [OF demo_run] demo_run demo_world_facts
  by (simp add: demo_world_after_def)

text \<open>
  C8: for an input dataset with no rows, a model that resolves, is a row-wise mapping,
  accepts the dataset and yields the columns \<^verbatim>\<open>driver_id\<close> and \<^verbatim>\<open>prediction\<close>, and a
  free result path, \<^verbatim>\<open>process\<close> succeeds and writes a table with the two-column schema
  and no rows.
\<close>

theorem process_empty_dataset:
  assumes "fs w data_path = Some t"
    and "rows t = []"
    and "registry w model_uri = Some m"
    and "row_wise m"
    and "m t = Inr t'"
    and "column_indices (schema t') [''driver_id'', ''prediction''] = Inr is"
    and "fs w result = None"
  shows "process spark data_path result model_uri w =
           (Inr (), w\<lparr>calls := calls w @ stage_sequence data_path result model_uri,
                      fs := (fs w)(result \<mapsto>
                        \<lparr>schema = [''driver_id'', ''prediction''], rows = []\<rparr>)\<rparr>)"
proof -
  from assms(4,5) obtain f where "rows t' = map f (rows t)"
    unfolding row_wise_def by blast
  with assms(2) have "rows t' = []" by simp
  with assms show ?thesis
    by (simp add: process_eq del: column_indices.simps)
qed

lemma empty_world_facts:
  "fs empty_world ''data.parquet'' = Some (demo_data\<lparr>rows := []\<rparr>)"
  "rows (demo_data\<lparr>rows := []\<rparr>) = []"
  "registry empty_world (model_uri_arg defaults) = Some threshold_model"
  "threshold_model (demo_data\<lparr>rows := []\<rparr>)
     = Inr \<lparr>schema = [''driver_id'', ''f1'', ''prediction''], rows = []\<rparr>"
  "column_indices (schema \<lparr>schema = [''driver_id'', ''f1'', ''prediction''], rows = [] :: real list list\<rparr>)
     [''driver_id'', ''prediction''] = Inr [0, 2]"
  "fs empty_world ''result'' = None"
  by (simp_all add: empty_world_def demo_world_def demo_data_def threshold_model_def
      column_index_def)

theorem process_empty_dataset_witness:
  "fs empty_world ''data.parquet'' = Some (demo_data\<lparr>rows := []\<rparr>)
   \<and> process demo_spark ''data.parquet'' ''result'' (model_uri_arg defaults) empty_world
       = (Inr (), empty_world\<lparr>calls := calls empty_world
                      @ stage_sequence ''data.parquet'' ''result'' (model_uri_arg defaults),
             fs := (fs empty_world)(''result'' \<mapsto>
                \<lparr>schema = [''driver_id'', ''prediction''], rows = []\<rparr>)\<rparr>)"
  using process_empty_dataset [OF empty_world_facts(1,2,3) row_wise_threshold_model
      empty_world_facts(4,5,6), of demo_spark] empty_world_facts(1)
  by simp

text \<open>
  C10: the outcome of \<^verbatim>\<open>process\<close> and the table at the result path afterwards depend
  only on the dataset at the data path, the model the URI resolves to and what is stored
  at the result path: two worlds that agree on these three give the same outcome and the
  same output table.
\<close>

theorem process_deterministic:
  assumes "fs w1 data_path = fs w2 data_path"
    and "registry w1 model_uri = registry w2 model_uri"
    and "fs w1 result = fs w2 result"
  shows "fst (process spark1 data_path result model_uri w1)
           = fst (process spark2 data_path result model_uri w2)
         \<and> fs (snd (process spark1 data_path result model_uri w1)) result
           = fs (snd (process spark2 data_path result model_uri w2)) result"
  using assms
  by (simp add: process_eq del: column_indices.simps split: option.splits sum.splits)

theorem process_deterministic_witness:
  "fs demo_world ''data.parquet'' = fs other_world ''data.parquet''
   \<and> registry demo_world (model_uri_arg defaults) = registry other_world (model_uri_arg defaults)
   \<and> fs demo_world ''result'' = fs other_world ''result''
   \<and> fst (process demo_spark ''data.parquet'' ''result'' (model_uri_arg defaults) other_world)
       = Inr ()
   \<and> fs (snd (process demo_spark ''data.parquet'' ''result'' (model_uri_arg defaults) other_world))
        ''result'' = Some demo_predictions"
proof -
  have same: "fs demo_world ''data.parquet'' = fs other_world ''data.parquet''"
    "registry demo_world (model_uri_arg defaults) = registry other_world (model_uri_arg defaults)"
    "fs demo_world ''result'' = fs other_world ''result''"
    by (simp_all add: other_world_def demo_world_def)
  show ?thesis
    using process_deterministic [OF same, of demo_spark demo_spark] same demo_run
    by (simp add: demo_world_after_def)
qed


lemma env_after_no_setenv:
  "\<forall>c\<in>set cs. \<not> is_setenv c \<Longrightarrow> env_after e cs = e"
  unfolding env_after_def
  by (induction cs arbitrary: e) (auto simp: apply_call_def is_setenv_def split: call.splits)

lemma env_after_startup: "env_configured (env_after e startup_calls)"
  by (simp add: env_after_def startup_calls_def apply_call_def env_configured_def)

lemma env_after_append: "env_after e (xs @ ys) = env_after (env_after e xs) ys"
  by (simp add: env_after_def)

lemma startup_eq:
  "startup w = w\<lparr>env := env_after (env w) startup_calls, calls := calls w @ startup_calls\<rparr>"
  by (simp add: startup_def setenv_def env_after_def startup_calls_def apply_call_def)

lemma main_calls:
  "\<exists>rest. calls (snd (main d r u w)) = calls w @ rest \<and> (\<forall>c\<in>set rest. \<not> is_setenv c)
     \<and> env (snd (main d r u w)) = env w"
  by (auto simp: main_def spark_session_def get_or_create_def process_eq stage_sequence_def
      is_setenv_def simp del: column_indices.simps split: option.splits sum.splits)

lemma program_calls:
  "\<exists>rest. calls (snd (program argv w)) = calls w @ startup_calls @ rest
     \<and> (\<forall>c\<in>set rest. \<not> is_setenv c)
     \<and> env (snd (program argv w)) = env_after (env w) startup_calls"
proof (cases "parse_args argv")
  case (Inl e)
  then show ?thesis by (simp add: program_def startup_eq)
next
  case (Inr args)
  obtain rest where
    "calls (snd (main (data_arg args) (result_arg args) (model_uri_arg args) (startup w)))
       = calls (startup w) @ rest"
    "\<forall>c\<in>set rest. \<not> is_setenv c"
    "env (snd (main (data_arg args) (result_arg args) (model_uri_arg args) (startup w)))
       = env (startup w)"
    using main_calls by blast
  with Inr show ?thesis by (auto simp: program_def startup_eq)
qed

text \<open>
  C9: in every run of the script, whatever the command line and the world, the first
  three calls set the three variables of the artifact store; no later call sets the
  environment, so at every later point of the run, and at every stage, the three
  variables have their values.
\<close>

theorem program_env_before_stages:
  "\<exists>rest. calls (snd (program argv w)) = calls w @ startup_calls @ rest
     \<and> (\<forall>c\<in>set rest. \<not> is_setenv c)
     \<and> (\<forall>k\<le>length rest. env_configured (env_after (env w) (startup_calls @ take k rest)))
     \<and> env (snd (program argv w)) = env_after (env w) (startup_calls @ rest)
     \<and> env_configured (env (snd (program argv w)))"
proof -
  obtain rest where calls: "calls (snd (program argv w)) = calls w @ startup_calls @ rest"
    and quiet: "\<forall>c\<in>set rest. \<not> is_setenv c"
    and env: "env (snd (program argv w)) = env_after (env w) startup_calls"
    using program_calls by blast
  have later: "env_after (env w) (startup_calls @ take k rest) = env_after (env w) startup_calls"
    for k
  proof -
    from quiet have "\<forall>c\<in>set (take k rest). \<not> is_setenv c"
      by (meson in_set_takeD)
    then show ?thesis by (simp add: env_after_append env_after_no_setenv)
  qed
  from quiet have all: "env_after (env w) (startup_calls @ rest) = env_after (env w) startup_calls"
    by (simp add: env_after_append env_after_no_setenv)
  from calls quiet env later all show ?thesis
    by (intro exI [of _ rest]) (simp add: env_after_startup)
qed


theorem program_env_before_stages_witness:
  "calls (snd (program [] demo_world))
     = startup_calls @ [GetOrCreate ''PySparkPredict'', ReadParquet ''data.parquet'',
         LoadModel (model_uri_arg defaults), Transform,
         Select [''driver_id'', ''prediction''], WriteParquet ''result'']
   \<and> env_configured (env (snd (program [] demo_world)))"
proof -
  have run: "calls (snd (program [] demo_world))
     = startup_calls @ [GetOrCreate ''PySparkPredict'', ReadParquet ''data.parquet'',
         LoadModel (model_uri_arg defaults), Transform,
         Select [''driver_id'', ''prediction''], WriteParquet ''result'']"
    by (simp add: program_def parse_args_def main_def spark_session_def get_or_create_def
        startup_eq process_eq demo_world_def demo_data_def threshold_model_def column_index_def
        defaults_def stage_sequence_def)
  from program_env_before_stages [of "[]" demo_world] run show ?thesis by blast
qed

lemma field_store: "field opt (store opt' v ns) = (if opt = opt' then v else field opt ns)"
  by (cases opt; cases opt') simp_all

lemma parse_loop_keeps:
  "parse_loop ns argv = Inr ns' \<Longrightarrow> \<not> option_given opt argv \<Longrightarrow> field opt ns' = field opt ns"
proof (induction ns argv rule: parse_loop.induct)
  case (1 ns)
  then show ?case by simp
next
  case (2 ns tok)
  then show ?case
    by (auto simp: option_given_def field_store split: prod.splits option.splits)
next
  case (3 ns tok v rest)
  obtain s x where tok: "split_eq tok = (s, x)" by (cases "split_eq tok")
  from "3.prems" tok obtain opt' where sel: "lookup_option s = Some opt'"
    by (auto split: option.splits)
  from "3.prems"(2) tok sel have other: "opt \<noteq> opt'"
    by (auto simp: option_given_def)
  show ?case
  proof (cases x)
    case None
    with "3.prems" tok sel have v: "is_value v" and run: "parse_loop (store opt' v ns) rest = Inr ns'"
      by (auto split: if_splits)
    from "3.prems"(2) have "\<not> option_given opt rest" by (simp add: option_given_def)
    with "3.IH"(1) [OF tok [symmetric] None sel v run] other show ?thesis
      by (simp add: field_store)
  next
    case (Some y)
    with "3.prems" tok sel have run: "parse_loop (store opt' y ns) (v # rest) = Inr ns'"
      by auto
    from "3.prems"(2) have "\<not> option_given opt (v # rest)" by (simp add: option_given_def)
    with "3.IH"(2) [OF tok [symmetric] Some sel run] other show ?thesis
      by (simp add: field_store)
  qed
qed

text \<open>
  C6: with no arguments the parser yields \<^verbatim>\<open>data.parquet\<close>, \<^verbatim>\<open>result\<close> and the
  sample model URI, which has the form of a registry URI; and on every command line the
  parser accepts, an option that is not given has its default.
\<close>

theorem parse_args_defaults:
  "parse_args [] = Inr \<lparr>data_arg = ''data.parquet'', result_arg = ''result'',
       model_uri_arg = ''s3://kc-mlflow/341/49349c2583f94de18093e90d3d6ea578/artifacts/e-sidorova''\<rparr>
   \<and> registry_uri_form ''s3://kc-mlflow/341/49349c2583f94de18093e90d3d6ea578/artifacts/e-sidorova''
   \<and> (parse_args argv = Inr ns \<longrightarrow>
        (\<not> option_given OptData argv \<longrightarrow> data_arg ns = ''data.parquet'')
        \<and> (\<not> option_given OptResult argv \<longrightarrow> result_arg ns = ''result'')
        \<and> (\<not> option_given OptModelUri argv \<longrightarrow> model_uri_arg ns
              = ''s3://kc-mlflow/341/49349c2583f94de18093e90d3d6ea578/artifacts/e-sidorova''))"
proof (intro conjI impI)
  show "parse_args [] = Inr \<lparr>data_arg = ''data.parquet'', result_arg = ''result'',
       model_uri_arg = ''s3://kc-mlflow/341/49349c2583f94de18093e90d3d6ea578/artifacts/e-sidorova''\<rparr>"
    by (simp add: parse_args_def defaults_def)
next
  show "registry_uri_form ''s3://kc-mlflow/341/49349c2583f94de18093e90d3d6ea578/artifacts/e-sidorova''"
    by (simp add: registry_uri_form_def)
next
  assume "parse_args argv = Inr ns" and "\<not> option_given OptData argv"
  then have "field OptData ns = field OptData defaults"
    unfolding parse_args_def by (rule parse_loop_keeps)
  then show "data_arg ns = ''data.parquet''" by (simp add: defaults_def)
next
  assume "parse_args argv = Inr ns" and "\<not> option_given OptResult argv"
  then have "field OptResult ns = field OptResult defaults"
    unfolding parse_args_def by (rule parse_loop_keeps)
  then show "result_arg ns = ''result''" by (simp add: defaults_def)
next
  assume "parse_args argv = Inr ns" and "\<not> option_given OptModelUri argv"
  then have "field OptModelUri ns = field OptModelUri defaults"
    unfolding parse_args_def by (rule parse_loop_keeps)
  then show "model_uri_arg ns
     = ''s3://kc-mlflow/341/49349c2583f94de18093e90d3d6ea578/artifacts/e-sidorova''"
    by (simp add: defaults_def)
qed


theorem parse_args_defaults_witness:
  "\<not> option_given OptData [] \<and> \<not> option_given OptResult [] \<and> \<not> option_given OptModelUri []
   \<and> parse_args [] = Inr defaults
   \<and> data_arg defaults = ''data.parquet''
   \<and> result_arg defaults = ''result''
   \<and> model_uri_arg defaults
       = ''s3://kc-mlflow/341/49349c2583f94de18093e90d3d6ea578/artifacts/e-sidorova''
   \<and> parse_args [''--data'', ''trips.parquet'']
       = Inr \<lparr>data_arg = ''trips.parquet'', result_arg = ''result'',
           model_uri_arg = ''s3://kc-mlflow/341/49349c2583f94de18093e90d3d6ea578/artifacts/e-sidorova''\<rparr>
   \<and> option_given OptData [''--data'', ''trips.parquet'']
   \<and> \<not> option_given OptResult [''--data'', ''trips.parquet'']
   \<and> \<not> option_given OptModelUri [''--data'', ''trips.parquet'']"
proof -
  have none: "\<not> option_given OptData []" "\<not> option_given OptResult []"
    "\<not> option_given OptModelUri []" "parse_args [] = Inr defaults"
    by (simp_all add: option_given_def parse_args_def)
  have run: "parse_args [''--data'', ''trips.parquet'']
     = Inr \<lparr>data_arg = ''trips.parquet'', result_arg = ''result'',
         model_uri_arg = ''s3://kc-mlflow/341/49349c2583f94de18093e90d3d6ea578/artifacts/e-sidorova''\<rparr>"
    by (simp add: parse_args_def defaults_def split_eq_def lookup_option_def option_strings_def
        is_value_def)
  have given: "option_given OptData [''--data'', ''trips.parquet'']"
    "\<not> option_given OptResult [''--data'', ''trips.parquet'']"
    "\<not> option_given OptModelUri [''--data'', ''trips.parquet'']"
    by (simp_all add: option_given_def split_eq_def lookup_option_def option_strings_def)
  from parse_args_defaults [of "[''--data'', ''trips.parquet'']"]
    parse_args_defaults [of "[]" defaults] none run given
  show ?thesis by simp
qed

end
